theory Spec2Isabelle
  imports Main
begin

section \<open>The options and the errors of bindable.ts\<close>

text \<open>
  A \<open>DestroyRef\<close> and the object a call of \<open>signal\<close> creates are known by their
  identity only. An \<open>Injector\<close> is used by the source in one way, \<open>injector.get(DestroyRef)\<close>,
  so it is modelled by what that lookup returns (a mocked injector may return \<open>undefined\<close>).
\<close>

type_synonym destroy_ref = nat
type_synonym object_ref = nat

datatype injector_t = Injector (get_DestroyRef: "destroy_ref option")

text \<open>
  The argument \<open>options\<close>: the three fields that bindable.ts reads, and \<open>equal\<close>, the
  field of \<open>CreateSignalOptions\<close> that decides what \<open>set\<close> does; bindable.ts hands it
  on to \<open>signal\<close> with the rest. Each field may be \<open>undefined\<close>, and so may the whole
  argument (\<open>options?\<close>).
\<close>

record 'a options =
  destroyRef :: "destroy_ref option"
  injector :: "injector_t option"
  manualCleanup :: "bool option"
  equal :: "('a \<Rightarrow> 'a \<Rightarrow> bool) option"

text \<open>
  Optional chaining: \<open>options?.destroyRef\<close>, \<open>options?.injector\<close>,
  \<open>options?.manualCleanup\<close>, \<open>options?.equal\<close>.
\<close>

definition opt_destroyRef :: "'a options option \<Rightarrow> destroy_ref option" where
  "opt_destroyRef opts = (case opts of None \<Rightarrow> None | Some x \<Rightarrow> destroyRef x)"

definition opt_injector :: "'a options option \<Rightarrow> injector_t option" where
  "opt_injector opts = (case opts of None \<Rightarrow> None | Some x \<Rightarrow> injector x)"

definition opt_manualCleanup :: "'a options option \<Rightarrow> bool option" where
  "opt_manualCleanup opts = (case opts of None \<Rightarrow> None | Some x \<Rightarrow> manualCleanup x)"

definition opt_equal :: "'a options option \<Rightarrow> ('a \<Rightarrow> 'a \<Rightarrow> bool) option" where
  "opt_equal opts = (case opts of None \<Rightarrow> None | Some x \<Rightarrow> equal x)"

text \<open>
  The equality a signal created with these options uses: \<open>options?.equal\<close> and, without
  one, Angular's default (\<open>Object.is\<close>).
\<close>

definition equality_of :: "'a options option \<Rightarrow> 'a \<Rightarrow> 'a \<Rightarrow> bool" where
  "equality_of opts = (case opt_equal opts of None \<Rightarrow> (=) | Some f \<Rightarrow> f)"

text \<open>One constructor for each place where the source (or a collaborator it calls) throws.\<close>

datatype error =
    ManualCleanupConflict
  | NoInjectionContext
  | InReactiveContext
  | AlreadyBound
  | SignalWithoutInjector
  | NoDestroyRef

section \<open>Sources, and the state around one bindable signal\<close>

datatype 'a notification = Next 'a | Complete | Failed

text \<open>
  The argument of \<open>bindTo\<close>. A \<open>Signal\<close> is its identity and the value it holds when
  \<open>bindTo\<close> is called; an \<open>Observable\<close> is its identity and the notifications it delivers
  synchronously to a new subscriber (a \<open>BehaviorSubject\<close> delivers its current value, a
  plain \<open>Subject\<close> nothing). What a source does later arrives as an event.
\<close>

datatype 'a source =
    SignalSrc nat 'a
  | ObservableSrc nat "'a notification list"

fun isSignal :: "'a source \<Rightarrow> bool" where
  "isSignal (SignalSrc _ _) = True"
| "isSignal (ObservableSrc _ _) = False"

text \<open>
  The effect that \<open>bindTo\<close> creates for a signal source: the source it reads and that
  source's current value, the \<open>DestroyRef\<close> of the injector it was created with, whether it
  is scheduled to run, and whether it has been destroyed.
\<close>

record 'a effect_t =
  eff_source :: nat
  eff_current :: 'a
  eff_scope :: "destroy_ref option"
  eff_dirty :: bool
  eff_destroyed :: bool

text \<open>
  The subscription that \<open>bindTo\<close> creates for an observable source:
  \<open>source.pipe(observeOn(asapScheduler), operatorFunction).subscribe(...)\<close>.
  \<open>sub_until\<close> is the \<open>DestroyRef\<close> of \<open>takeUntilDestroyed\<close> (none for \<open>pipe()\<close>),
  \<open>sub_stopped\<close> says that the source has completed or failed, \<open>sub_closed\<close> that
  the subscriber no longer receives, and \<open>sub_pending\<close> holds what \<open>observeOn\<close> has
  scheduled on the \<open>asapScheduler\<close> and not delivered yet, oldest first.
\<close>

record 'a subscription_t =
  sub_source :: nat
  sub_until :: "destroy_ref option"
  sub_stopped :: bool
  sub_closed :: bool
  sub_pending :: "'a notification list"

text \<open>
  The closure of one call of \<open>bindable\<close> and what surrounds it: the identity and the
  value of \<open>bindableSignal\<close>, the captured \<open>options\<close>, the variables \<open>injector\<close> and
  \<open>bound\<close>, the effect and the subscription created so far, and the \<open>DestroyRef\<close>s whose
  \<open>onDestroy\<close> callbacks have run. \<open>relayed\<close> is a history variable: the values that
  the effect or the subscriber has handed to \<open>bindableSignal.set\<close>, oldest first.
\<close>

record 'a world =
  self :: object_ref
  bindableSignal :: 'a
  cl_options :: "'a options option"
  cl_injector :: "injector_t option"
  bound :: bool
  installed_effect :: "'a effect_t option"
  subscription :: "'a subscription_t option"
  destroyed :: "destroy_ref list"
  relayed :: "'a list"

section \<open>Construction\<close>

definition assertNoDestroyRefOrInjectorProvidedWithManualCleanup ::
    "'a options option \<Rightarrow> error + unit" where
  "assertNoDestroyRefOrInjectorProvidedWithManualCleanup opts =
     (if opt_manualCleanup opts = Some True then
        (if opt_destroyRef opts \<noteq> None \<or> opt_injector opts \<noteq> None
         then Inl ManualCleanupConflict
         else Inr ())
      else Inr ())"

text \<open>
  Modelled from the spec: \<open>inject(Injector)\<close> of Angular, which is not part of the
  repository. Its argument is the ambient injection context of the caller: outside any
  context the call throws, inside one it returns that context's injector.
\<close>

definition inject_Injector :: "injector_t option \<Rightarrow> error + injector_t" where
  "inject_Injector ambient =
     (case ambient of None \<Rightarrow> Inl NoInjectionContext | Some i \<Rightarrow> Inr i)"

text \<open>
  \<open>bindable(initialValue, options)\<close>, called in the ambient context \<open>ambient\<close>; \<open>r\<close> is
  the identity of the object that \<open>signal(initialValue, options)\<close> creates; the signal
  keeps the \<open>options\<close> it is created with, \<open>equal\<close> among them. The result is the state
  right after the call: nothing bound, nothing subscribed. The call does not
  look at any scope, so a scope that was torn down before it is the same as one torn down
  right after it (the event \<open>Destroy\<close> below).
\<close>

definition bindable ::
    "injector_t option \<Rightarrow> object_ref \<Rightarrow> 'a \<Rightarrow> 'a options option \<Rightarrow> error + 'a world" where
  "bindable ambient r initialValue opts =
     (case assertNoDestroyRefOrInjectorProvidedWithManualCleanup opts of
        Inl e \<Rightarrow> Inl e
      | Inr _ \<Rightarrow>
          (case (if opt_destroyRef opts = None \<and> opt_manualCleanup opts \<noteq> Some True
                 then (case opt_injector opts of
                         Some i \<Rightarrow> Inr (Some i)
                       | None \<Rightarrow>
                           (case inject_Injector ambient of
                              Inl e \<Rightarrow> Inl e
                            | Inr i \<Rightarrow> Inr (Some i)))
                 else Inr None) of
             Inl e \<Rightarrow> Inl e
           | Inr captured \<Rightarrow>
               Inr \<lparr> self = r, bindableSignal = initialValue, cl_options = opts,
                     cl_injector = captured, bound = False, installed_effect = None,
                     subscription = None, destroyed = [], relayed = [] \<rparr>))"

section \<open>The collaborators of bindTo\<close>

text \<open>
  Angular and RxJS are not part of the repository. What \<open>bindTo\<close> uses of them is
  modelled from sections 5 and 6 of the specification, one definition for each
  primitive.
\<close>

text \<open>
  Modelled from the spec: the equality of the reactive cell, which is the one of the
  options that \<open>signal\<close> was called with.
\<close>

definition signal_equal :: "'a world \<Rightarrow> 'a \<Rightarrow> 'a \<Rightarrow> bool" where
  "signal_equal w = equality_of (cl_options w)"

text \<open>
  Modelled from the spec: \<open>set\<close> of the reactive cell, which is Angular's
  \<open>WritableSignal.set\<close>. A write replaces the value, unless the signal's equality finds
  the new value equal to the current one: then the current value stays.
\<close>

definition set_result :: "('a \<Rightarrow> 'a \<Rightarrow> bool) \<Rightarrow> 'a \<Rightarrow> 'a \<Rightarrow> 'a" where
  "set_result eq current v = (if eq current v then current else v)"

definition signal_set :: "'a \<Rightarrow> 'a world \<Rightarrow> 'a world" where
  "signal_set v w = w\<lparr>bindableSignal := set_result (signal_equal w) (bindableSignal w) v\<rparr>"

text \<open>
  The callbacks that \<open>bindTo\<close> hands over, \<open>() => bindableSignal.set(source())\<close> and
  \<open>value => bindableSignal.set(value)\<close>, applied to the value \<open>v\<close>; the call of
  \<open>set\<close> is recorded in the history.
\<close>

definition relay :: "'a \<Rightarrow> 'a world \<Rightarrow> 'a world" where
  "relay v w = (signal_set v w)\<lparr>relayed := relayed w @ [v]\<rparr>"

text \<open>Whether the \<open>onDestroy\<close> callbacks of a scope (if there is one) have run.\<close>

definition is_destroyed :: "destroy_ref option \<Rightarrow> 'a world \<Rightarrow> bool" where
  "is_destroyed scope w = (case scope of None \<Rightarrow> False | Some d \<Rightarrow> d \<in> set (destroyed w))"

text \<open>
  Modelled from the spec: \<open>effect(fn, { injector, allowSignalWrites: true })\<close> of
  Angular, the derived computation of section 6. The reaction is scoped to the
  \<open>DestroyRef\<close> of the injector and scheduled for the next scheduling turn; created
  on a scope that is already torn down, it is destroyed at once (section 6; Angular
  itself refuses an injector that is already destroyed, and nothing below states that
  \<open>bindTo\<close> succeeds on a scope that is torn down).
\<close>

definition effect :: "nat \<Rightarrow> 'a \<Rightarrow> injector_t \<Rightarrow> 'a world \<Rightarrow> 'a world" where
  "effect sid v i w =
     w\<lparr>installed_effect := Some
         \<lparr> eff_source = sid, eff_current = v, eff_scope = get_DestroyRef i,
           eff_dirty = True, eff_destroyed = is_destroyed (get_DestroyRef i) w \<rparr>\<rparr>"

text \<open>
  Modelled from the spec: \<open>observeOn(asapScheduler)\<close> of RxJS, the next-turn
  scheduling operator of section 6. A notification of the source is queued behind the
  ones already waiting, unless the source has ended or the subscriber is closed.
\<close>

definition observeOn :: "'a notification \<Rightarrow> 'a subscription_t \<Rightarrow> 'a subscription_t" where
  "observeOn n sub =
     (if sub_closed sub \<or> sub_stopped sub then sub
      else sub\<lparr>sub_pending := sub_pending sub @ [n],
               sub_stopped := (case n of Next _ \<Rightarrow> False | _ \<Rightarrow> True)\<rparr>)"

text \<open>
  Modelled from the spec: \<open>source.pipe(observeOn(asapScheduler), operatorFunction).subscribe(...)\<close>
  of RxJS, where \<open>operatorFunction\<close> is \<open>takeUntilDestroyed(destroyRef)\<close> (\<open>until\<close> is
  that \<open>DestroyRef\<close>) or \<open>pipe()\<close> (\<open>until\<close> is none). On a scope that is already torn
  down the subscription is closed at once; otherwise what the source delivers on
  subscription goes through \<open>observeOn\<close>.
\<close>

definition subscribe ::
    "nat \<Rightarrow> 'a notification list \<Rightarrow> destroy_ref option \<Rightarrow> 'a world \<Rightarrow> 'a world" where
  "subscribe oid sync until w =
     w\<lparr>subscription := Some (fold observeOn sync
         \<lparr> sub_source = oid, sub_until = until, sub_stopped = False,
           sub_closed = is_destroyed until w, sub_pending = [] \<rparr>)\<rparr>"

section \<open>bindTo\<close>

text \<open>\<open>options?.destroyRef ?? injector?.get(DestroyRef)\<close>, over the captured variables.\<close>

definition resolved_destroyRef :: "'a world \<Rightarrow> destroy_ref option" where
  "resolved_destroyRef w =
     (case opt_destroyRef (cl_options w) of
        Some d \<Rightarrow> Some d
      | None \<Rightarrow> (case cl_injector w of None \<Rightarrow> None | Some i \<Rightarrow> get_DestroyRef i))"

text \<open>
  \<open>bindTo(source)\<close>, called by a caller that is (\<open>inReactiveContext\<close>) or is not inside
  a reactive computation; \<open>assertNotInReactiveContext\<close> of Angular throws in the first
  case. The result is what the call returns or throws, and the state it leaves behind.
\<close>

definition bindTo ::
    "bool \<Rightarrow> 'a source \<Rightarrow> 'a world \<Rightarrow> (error + object_ref) \<times> 'a world" where
  "bindTo inReactiveContext source w =
     (if inReactiveContext then (Inl InReactiveContext, w)
      else if bound w then (Inl AlreadyBound, w)
      else
        (case source of
           SignalSrc sid v \<Rightarrow>
             (case cl_injector w of
                None \<Rightarrow> (Inl SignalWithoutInjector, w)
              | Some i \<Rightarrow>
                  (let w1 = effect sid v i w;
                       w2 = w1\<lparr>bound := True\<rparr>
                   in (Inr (self w2), w2)))
         | ObservableSrc oid sync \<Rightarrow>
             (if opt_manualCleanup (cl_options w) = Some True then
                (let w1 = subscribe oid sync None w;
                     w2 = w1\<lparr>bound := True\<rparr>
                 in (Inr (self w2), w2))
              else
                (case resolved_destroyRef w of
                   None \<Rightarrow> (Inl NoDestroyRef, w)
                 | Some d \<Rightarrow>
                     (let w1 = subscribe oid sync (Some d) w;
                          w2 = w1\<lparr>bound := True\<rparr>
                      in (Inr (self w2), w2))))))"

section \<open>What happens around the bindable signal\<close>

text \<open>
  Modelled from the spec: the delivery of queued notifications on a scheduling turn
  (section 5). The subscriber receives them in the order of emission; a completion or a
  failure closes it.
\<close>

fun deliver :: "'a notification list \<Rightarrow> 'a subscription_t \<Rightarrow> 'a world \<Rightarrow> 'a world" where
  "deliver [] sub w = w\<lparr>subscription := Some sub\<rparr>"
| "deliver (Next v # ns) sub w = deliver ns sub (relay v w)"
| "deliver (_ # ns) sub w = w\<lparr>subscription := Some (sub\<lparr>sub_closed := True\<rparr>)\<rparr>"

text \<open>
  Modelled from the spec: the \<open>asapScheduler\<close> of RxJS on a scheduling turn. The queue
  of an open subscription is emptied into its subscriber.
\<close>

definition flush_subscription :: "'a world \<Rightarrow> 'a world" where
  "flush_subscription w =
     (case subscription w of
        None \<Rightarrow> w
      | Some sub \<Rightarrow>
          if sub_closed sub then w
          else deliver (sub_pending sub) (sub\<lparr>sub_pending := []\<rparr>) w)"

text \<open>
  Modelled from the spec: Angular running an effect on a scheduling turn. An effect that
  is scheduled and not destroyed runs its callback once, on the value its source holds
  then.
\<close>

definition run_effect :: "'a world \<Rightarrow> 'a world" where
  "run_effect w =
     (case installed_effect w of
        None \<Rightarrow> w
      | Some e \<Rightarrow>
          if eff_dirty e \<and> \<not> eff_destroyed e
          then relay (eff_current e) (w\<lparr>installed_effect := Some (e\<lparr>eff_dirty := False\<rparr>)\<rparr>)
          else w)"

text \<open>Modelled from the spec: one scheduling turn of the event loop of section 5.\<close>

definition tick :: "'a world \<Rightarrow> 'a world" where
  "tick w = run_effect (flush_subscription w)"

text \<open>
  Modelled from the spec: the teardown of an owning scope, that is, the \<open>onDestroy\<close>
  callbacks of the \<open>DestroyRef\<close> \<open>d\<close> run. \<open>takeUntilDestroyed(d)\<close> closes its
  subscription, and what is still queued for it is dropped; an effect scoped to \<open>d\<close> is
  destroyed.
\<close>

definition onDestroy :: "destroy_ref \<Rightarrow> 'a world \<Rightarrow> 'a world" where
  "onDestroy d w =
     w\<lparr>destroyed := d # destroyed w,
       subscription :=
         (case subscription w of
            None \<Rightarrow> None
          | Some sub \<Rightarrow>
              Some (if sub_until sub = Some d
                    then sub\<lparr>sub_closed := True, sub_pending := []\<rparr>
                    else sub)),
       installed_effect :=
         (case installed_effect w of
            None \<Rightarrow> None
          | Some e \<Rightarrow>
              Some (if eff_scope e = Some d then e\<lparr>eff_destroyed := True\<rparr> else e))\<rparr>"

text \<open>
  Modelled from the spec: the observable \<open>oid\<close> notifies its subscribers (the push
  stream of section 6).
\<close>

definition source_notify :: "nat \<Rightarrow> 'a notification \<Rightarrow> 'a world \<Rightarrow> 'a world" where
  "source_notify oid n w =
     w\<lparr>subscription :=
         (case subscription w of
            None \<Rightarrow> None
          | Some sub \<Rightarrow> Some (if sub_source sub = oid then observeOn n sub else sub))\<rparr>"

text \<open>
  Modelled from the spec: the signal \<open>sid\<close> is set to \<open>v\<close> (the reactive cell of
  section 6); a change schedules the effects that read it.
\<close>

definition source_set :: "nat \<Rightarrow> 'a \<Rightarrow> 'a world \<Rightarrow> 'a world" where
  "source_set sid v w =
     w\<lparr>installed_effect :=
         (case installed_effect w of
            None \<Rightarrow> None
          | Some e \<Rightarrow>
              Some (if eff_source e = sid
                    then e\<lparr>eff_current := v, eff_dirty := (eff_dirty e \<or> v \<noteq> eff_current e)\<rparr>
                    else e))\<rparr>"

text \<open>
  What can happen to a bindable signal after its construction: a call of \<open>bindTo\<close> (an
  exception goes to the caller), a call of its own \<open>set\<close>, a notification of an
  observable, a write to a signal, the teardown of a scope, a scheduling turn.
\<close>

datatype 'a event =
    CallBindTo bool "'a source"
  | CallSet 'a
  | SourceNotify nat "'a notification"
  | SourceSet nat 'a
  | Destroy destroy_ref
  | Tick

fun step :: "'a event \<Rightarrow> 'a world \<Rightarrow> 'a world" where
  "step (CallBindTo ctx src) w = snd (bindTo ctx src w)"
| "step (CallSet v) w = signal_set v w"
| "step (SourceNotify oid n) w = source_notify oid n w"
| "step (SourceSet sid v) w = source_set sid v w"
| "step (Destroy d) w = onDestroy d w"
| "step Tick w = tick w"

fun run :: "'a event list \<Rightarrow> 'a world \<Rightarrow> 'a world" where
  "run [] w = w"
| "run (e # es) w = run es (step e w)"

section \<open>Notions used in the statements\<close>

fun is_CallSet :: "'a event \<Rightarrow> bool" where
  "is_CallSet (CallSet _) = True"
| "is_CallSet _ = False"



text \<open>An \<open>equal\<close> that finds any two values equal: \<open>equal: () => true\<close>.\<close>

definition always_equal :: "'a \<Rightarrow> 'a \<Rightarrow> bool" where
  "always_equal a b = True"






text \<open>Invariants of the states that \<open>bindable\<close> and the events produce.\<close>

definition settled :: "'a world \<Rightarrow> bool" where
  "settled w \<longleftrightarrow>
     (if bound w then installed_effect w = None \<or> subscription w = None
      else installed_effect w = None \<and> subscription w = None)"

definition scoped :: "destroy_ref \<Rightarrow> 'a world \<Rightarrow> bool" where
  "scoped d w \<longleftrightarrow>
     bound w
     \<and> (case subscription w of None \<Rightarrow> True | Some sub \<Rightarrow> sub_until sub = Some d)
     \<and> (case installed_effect w of None \<Rightarrow> True | Some e \<Rightarrow> eff_scope e = Some d)"

definition stopped_for_good :: "'a world \<Rightarrow> bool" where
  "stopped_for_good w \<longleftrightarrow>
     bound w
     \<and> (case subscription w of None \<Rightarrow> True | Some sub \<Rightarrow> sub_closed sub)
     \<and> (case installed_effect w of None \<Rightarrow> True | Some e \<Rightarrow> eff_destroyed e)"




section \<open>What the operations keep\<close>

lemma deliver_frame:
  "self (deliver ns sub w) = self w"
  "cl_options (deliver ns sub w) = cl_options w"
  "cl_injector (deliver ns sub w) = cl_injector w"
  "bound (deliver ns sub w) = bound w"
  "installed_effect (deliver ns sub w) = installed_effect w"
  "destroyed (deliver ns sub w) = destroyed w"
  by (induction ns sub w rule: deliver.induct) (simp_all add: relay_def signal_set_def)

lemma tick_frame:
  "self (tick w) = self w"
  "cl_options (tick w) = cl_options w"
  "cl_injector (tick w) = cl_injector w"
  "bound (tick w) = bound w"
  "destroyed (tick w) = destroyed w"
  by (simp_all add: tick_def run_effect_def flush_subscription_def deliver_frame relay_def
        signal_set_def split: option.splits)

lemma bindTo_frame:
  "self (snd (bindTo ctx src w)) = self w"
  "cl_options (snd (bindTo ctx src w)) = cl_options w"
  "cl_injector (snd (bindTo ctx src w)) = cl_injector w"
  "destroyed (snd (bindTo ctx src w)) = destroyed w"
  "bindableSignal (snd (bindTo ctx src w)) = bindableSignal w"
  "relayed (snd (bindTo ctx src w)) = relayed w"
  by (simp_all add: bindTo_def resolved_destroyRef_def effect_def subscribe_def Let_def split: source.splits option.splits)

lemma step_frame:
  "self (step e w) = self w"
  "cl_options (step e w) = cl_options w"
  "cl_injector (step e w) = cl_injector w"
  by (cases e; simp add: bindTo_frame tick_frame signal_set_def source_notify_def
        source_set_def onDestroy_def)+

lemma run_frame:
  "self (run evs w) = self w"
  "cl_options (run evs w) = cl_options w"
  "cl_injector (run evs w) = cl_injector w"
  by (induction evs arbitrary: w) (simp_all add: step_frame)

lemma run_resolved: "resolved_destroyRef (run evs w) = resolved_destroyRef w"
  by (simp add: resolved_destroyRef_def run_frame split: option.splits)

lemma bindTo_fails_unchanged: "fst (bindTo ctx src w) = Inl e \<Longrightarrow> snd (bindTo ctx src w) = w"
  by (simp add: bindTo_def resolved_destroyRef_def Let_def split: if_splits source.splits option.splits)


lemma bindTo_succeeds_iff:
  "\<not> isl (fst (bindTo ctx src w)) \<longleftrightarrow>
     \<not> ctx \<and> \<not> bound w \<and>
     (case src of
        SignalSrc sid v \<Rightarrow> cl_injector w \<noteq> None
      | ObservableSrc oid sync \<Rightarrow>
          opt_manualCleanup (cl_options w) = Some True \<or> resolved_destroyRef w \<noteq> None)"
  by (auto simp add: bindTo_def resolved_destroyRef_def Let_def split: source.splits option.splits)

lemma bindTo_bound:
  "bound (snd (bindTo ctx src w)) \<longleftrightarrow> bound w \<or> \<not> isl (fst (bindTo ctx src w))"
  by (auto simp add: bindTo_def resolved_destroyRef_def Let_def effect_def subscribe_def split: source.splits option.splits)

lemma step_bound:
  "bound (step e w) \<longleftrightarrow>
     bound w \<or> (case e of CallBindTo ctx src \<Rightarrow> \<not> isl (fst (bindTo ctx src w)) | _ \<Rightarrow> False)"
  by (cases e; simp add: bindTo_bound tick_frame signal_set_def source_notify_def
        source_set_def onDestroy_def)

lemma run_bound: "bound w \<Longrightarrow> bound (run evs w)"
  by (induction evs arbitrary: w) (simp_all add: step_bound)

lemma bindable_fresh:
  assumes "bindable ambient r v opts = Inr w0"
  shows "self w0 = r" "bindableSignal w0 = v" "cl_options w0 = opts" "\<not> bound w0"
    "installed_effect w0 = None" "subscription w0 = None" "destroyed w0 = []" "relayed w0 = []"
    "cl_injector w0 = (if opt_destroyRef opts = None \<and> opt_manualCleanup opts \<noteq> Some True
        then (case opt_injector opts of Some i \<Rightarrow> Some i | None \<Rightarrow> ambient) else None)"
  using assms
  by (auto simp add: bindable_def inject_Injector_def split: sum.splits if_splits option.splits)

lemma deliver_subscription:
  "\<exists>y. subscription (deliver ns sub w) = Some y"
  by (induction ns sub w rule: deliver.induct) simp_all

lemma tick_installed:
  "installed_effect (tick w) = None \<longleftrightarrow> installed_effect w = None"
  "subscription (tick w) = None \<longleftrightarrow> subscription w = None"
  by (auto simp add: tick_def run_effect_def flush_subscription_def deliver_frame relay_def
        signal_set_def deliver_subscription split: option.splits)

lemma step_settled: "settled w \<Longrightarrow> settled (step e w)"
proof (cases e)
  case (CallBindTo ctx src)
  assume "settled w"
  then show ?thesis
    unfolding CallBindTo
    by (auto simp add: settled_def bindTo_def resolved_destroyRef_def Let_def effect_def subscribe_def
          split: source.splits option.splits if_splits)
next
  case Tick
  assume "settled w"
  then show ?thesis
    unfolding Tick by (simp add: settled_def tick_installed tick_frame)
qed (auto simp add: settled_def signal_set_def source_notify_def source_set_def onDestroy_def
       split: option.splits if_splits)

lemma run_settled: "settled w \<Longrightarrow> settled (run evs w)"
  by (induction evs arbitrary: w) (simp_all add: step_settled)

lemma bindable_settled: "bindable ambient r v opts = Inr w0 \<Longrightarrow> settled w0"
  by (simp add: settled_def bindable_fresh)

lemma step_no_injector:
  "cl_injector w = None \<Longrightarrow> installed_effect w = None \<Longrightarrow> installed_effect (step e w) = None"
  by (cases e)
     (auto simp add: bindTo_def resolved_destroyRef_def Let_def subscribe_def tick_installed signal_set_def
        source_notify_def source_set_def onDestroy_def split: source.splits option.splits)

lemma run_no_injector:
  "cl_injector w = None \<Longrightarrow> installed_effect w = None \<Longrightarrow> installed_effect (run evs w) = None"
  by (induction evs arbitrary: w) (simp_all add: step_no_injector step_frame)

lemma step_no_tick:
  assumes "e \<noteq> Tick"
  shows "relayed (step e w) = relayed w"
    and "\<not> is_CallSet e \<Longrightarrow> bindableSignal (step e w) = bindableSignal w"
  using assms
  by (cases e; simp add: bindTo_frame signal_set_def source_notify_def source_set_def
        onDestroy_def)+

lemma run_no_tick:
  assumes "Tick \<notin> set evs"
  shows "relayed (run evs w) = relayed w"
    and "\<forall>e\<in>set evs. \<not> is_CallSet e \<Longrightarrow> bindableSignal (run evs w) = bindableSignal w"
  using assms
  by (induction evs arbitrary: w) (auto simp add: step_no_tick)

lemma deliver_sub_fields:
  "\<exists>y. subscription (deliver ns sub w) = Some y \<and> sub_until y = sub_until sub
       \<and> sub_source y = sub_source sub \<and> (sub_closed sub \<longrightarrow> sub_closed y)"
  by (induction ns sub w rule: deliver.induct) simp_all

lemma tick_scoped: "scoped d w \<Longrightarrow> scoped d (tick w)"
  using deliver_sub_fields [of "sub_pending (the (subscription w))"
          "(the (subscription w))\<lparr>sub_pending := []\<rparr>" w]
  by (auto simp add: scoped_def tick_def run_effect_def flush_subscription_def deliver_frame
        relay_def signal_set_def split: option.splits)

lemma step_scoped: "scoped d w \<Longrightarrow> scoped d (step e w)"
proof (cases e)
  case (CallBindTo ctx src)
  assume "scoped d w"
  then show ?thesis
    unfolding CallBindTo by (simp add: scoped_def bindTo_def resolved_destroyRef_def)
next
  case Tick
  assume "scoped d w"
  then show ?thesis unfolding Tick by (simp add: tick_scoped)
qed (auto simp add: scoped_def signal_set_def source_notify_def source_set_def onDestroy_def
       observeOn_def split: option.splits if_splits)

lemma run_scoped: "scoped d w \<Longrightarrow> scoped d (run evs w)"
  by (induction evs arbitrary: w) (simp_all add: step_scoped)

lemma onDestroy_stops: "scoped d w \<Longrightarrow> stopped_for_good (onDestroy d w)"
  by (auto simp add: scoped_def stopped_for_good_def onDestroy_def split: option.splits)

lemma tick_stopped: "stopped_for_good w \<Longrightarrow> tick w = w"
  by (auto simp add: stopped_for_good_def tick_def run_effect_def flush_subscription_def
        split: option.splits)

lemma step_stopped:
  assumes "stopped_for_good w"
  shows "stopped_for_good (step e w)"
    and "relayed (step e w) = relayed w"
    and "\<not> is_CallSet e \<Longrightarrow> bindableSignal (step e w) = bindableSignal w"
proof -
  show "stopped_for_good (step e w)"
  proof (cases e)
    case (CallBindTo ctx src)
    then show ?thesis using assms by (simp add: stopped_for_good_def bindTo_def resolved_destroyRef_def)
  next
    case Tick
    then show ?thesis using assms by (simp add: tick_stopped)
  qed (use assms in \<open>auto simp add: stopped_for_good_def signal_set_def source_notify_def
         source_set_def onDestroy_def observeOn_def split: option.splits if_splits\<close>)
  show "relayed (step e w) = relayed w"
    using assms by (cases "e = Tick") (simp_all add: tick_stopped step_no_tick)
  show "bindableSignal (step e w) = bindableSignal w" if "\<not> is_CallSet e"
    using assms that by (cases "e = Tick") (simp_all add: tick_stopped step_no_tick)
qed

lemma run_stopped:
  assumes "stopped_for_good w"
  shows "relayed (run evs w) = relayed w"
    and "\<forall>e\<in>set evs. \<not> is_CallSet e \<Longrightarrow> bindableSignal (run evs w) = bindableSignal w"
  using assms
  by (induction evs arbitrary: w) (simp_all add: step_stopped)

lemma observeOn_fields:
  "sub_until (observeOn n sub) = sub_until sub"
  "sub_source (observeOn n sub) = sub_source sub"
  "sub_closed (observeOn n sub) = sub_closed sub"
  by (simp_all add: observeOn_def)

lemma fold_observeOn_fields:
  "sub_until (fold observeOn ns sub) = sub_until sub"
  "sub_source (fold observeOn ns sub) = sub_source sub"
  "sub_closed (fold observeOn ns sub) = sub_closed sub"
  by (induction ns arbitrary: sub) (simp_all add: observeOn_fields)

lemma bindTo_scoped:
  assumes "settled w"
    and "bindTo ctx src w = (Inr res, w1)"
    and "resolved_destroyRef w = Some d"
    and "opt_destroyRef (cl_options w) \<noteq> None \<longrightarrow> cl_injector w = None"
    and "opt_manualCleanup (cl_options w) = Some True \<longrightarrow>
           opt_destroyRef (cl_options w) = None \<and> cl_injector w = None"
  shows "scoped d w1"
  using assms
  by (auto simp add: settled_def scoped_def bindTo_def resolved_destroyRef_def Let_def effect_def subscribe_def
        fold_observeOn_fields split: if_splits source.splits option.splits)

lemma bindable_captured:
  assumes "bindable ambient r v opts = Inr w0"
  shows "opt_destroyRef opts \<noteq> None \<longrightarrow> cl_injector w0 = None"
    and "opt_manualCleanup opts = Some True \<longrightarrow> opt_destroyRef opts = None \<and> cl_injector w0 = None"
    and "cl_injector w0 = None \<longleftrightarrow>
           opt_destroyRef opts \<noteq> None \<or> opt_manualCleanup opts = Some True"
  using assms
  by (cases "opt_injector opts"; cases ambient;
      auto simp add: bindable_def assertNoDestroyRefOrInjectorProvidedWithManualCleanup_def
        inject_Injector_def split: sum.splits if_splits dest: sym)+

lemma signal_equal_eq: "signal_equal w = equality_of (cl_options w)"
  by (simp add: signal_equal_def)




























lemmas eval_defs =
  bindable_def assertNoDestroyRefOrInjectorProvidedWithManualCleanup_def inject_Injector_def
  opt_destroyRef_def opt_injector_def opt_manualCleanup_def bindTo_def resolved_destroyRef_def
  Let_def effect_def subscribe_def observeOn_def is_destroyed_def tick_def
  flush_subscription_def run_effect_def relay_def signal_set_def signal_equal_def
  equality_of_def always_equal_def set_result_def opt_equal_def onDestroy_def
  source_notify_def source_set_def

section \<open>Construction: the claims\<close>

text \<open>
  C7. With \<open>manualCleanup: true\<close>, construction throws when a \<open>destroyRef\<close> or an
  \<open>injector\<close> is supplied as well, before any signal is created, and succeeds when
  neither is supplied, whatever the ambient context.
\<close>

theorem bindable_manualCleanup:
  assumes "opt_manualCleanup opts = Some True"
  shows "(opt_destroyRef opts \<noteq> None \<or> opt_injector opts \<noteq> None
            \<longrightarrow> bindable ambient r v opts = Inl ManualCleanupConflict)
       \<and> (opt_destroyRef opts = None \<and> opt_injector opts = None
            \<longrightarrow> (\<exists>w. bindable ambient r v opts = Inr w \<and> bindableSignal w = v))"
  using assms
  by (simp add: bindable_def assertNoDestroyRefOrInjectorProvidedWithManualCleanup_def)

theorem bindable_manualCleanup_witness:
  "bindable None 0 ''initialValue''
      (Some \<lparr>destroyRef = Some 1, injector = None, manualCleanup = Some True, equal = None\<rparr>)
     = Inl ManualCleanupConflict
   \<and> bindable None 0 ''initialValue''
      (Some \<lparr>destroyRef = None, injector = Some (Injector (Some 1)), manualCleanup = Some True, equal = None\<rparr>)
     = Inl ManualCleanupConflict
   \<and> (\<exists>w. bindable None 0 ''initialValue''
      (Some \<lparr>destroyRef = None, injector = None, manualCleanup = Some True, equal = None\<rparr>) = Inr w
        \<and> bindableSignal w = ''initialValue'')"
  using bindable_manualCleanup [of "Some \<lparr>destroyRef = Some 1, injector = None, manualCleanup = Some True, equal = None\<rparr>"
          None 0 "''initialValue''"]
        bindable_manualCleanup [of "Some \<lparr>destroyRef = None, injector = Some (Injector (Some 1)), manualCleanup = Some True, equal = None\<rparr>"
          None 0 "''initialValue''"]
        bindable_manualCleanup [of "Some \<lparr>destroyRef = None, injector = None, manualCleanup = Some True, equal = None\<rparr>"
          None 0 "''initialValue''"]
  by (simp add: opt_manualCleanup_def opt_destroyRef_def opt_injector_def)

text \<open>
  C8. Outside any injection context, construction throws when neither a \<open>destroyRef\<close>
  nor an \<open>injector\<close> is supplied and \<open>manualCleanup\<close> is not true; it succeeds when a
  \<open>destroyRef\<close> is supplied, when an \<open>injector\<close> is supplied, and when
  \<open>manualCleanup: true\<close> is given alone.
\<close>

theorem bindable_outside_injection_context:
  "(opt_destroyRef opts = None \<and> opt_injector opts = None \<and> opt_manualCleanup opts \<noteq> Some True
      \<longrightarrow> bindable None r v opts = Inl NoInjectionContext)
   \<and> (opt_destroyRef opts \<noteq> None \<and> opt_manualCleanup opts \<noteq> Some True
      \<longrightarrow> (\<exists>w. bindable None r v opts = Inr w))
   \<and> (opt_injector opts \<noteq> None \<and> opt_manualCleanup opts \<noteq> Some True
      \<longrightarrow> (\<exists>w. bindable None r v opts = Inr w))
   \<and> (opt_manualCleanup opts = Some True \<and> opt_destroyRef opts = None \<and> opt_injector opts = None
      \<longrightarrow> (\<exists>w. bindable None r v opts = Inr w))"
  by (auto simp add: bindable_def assertNoDestroyRefOrInjectorProvidedWithManualCleanup_def
        inject_Injector_def split: option.splits)

theorem bindable_outside_injection_context_witness:
  "bindable None 0 ''initialValue'' None = Inl NoInjectionContext
   \<and> bindable None 0 ''initialValue''
        (Some \<lparr>destroyRef = None, injector = None, manualCleanup = Some False, equal = None\<rparr>)
       = Inl NoInjectionContext
   \<and> (\<exists>w. bindable None 0 ''initialValue''
        (Some \<lparr>destroyRef = Some 1, injector = None, manualCleanup = None, equal = None\<rparr>) = Inr w)
   \<and> (\<exists>w. bindable None 0 ''initialValue''
        (Some \<lparr>destroyRef = None, injector = Some (Injector (Some 1)), manualCleanup = None, equal = None\<rparr>) = Inr w)
   \<and> (\<exists>w. bindable None 0 ''initialValue''
        (Some \<lparr>destroyRef = None, injector = None, manualCleanup = Some True, equal = None\<rparr>) = Inr w)"
  using bindable_outside_injection_context [of None 0 "''initialValue''"]
    bindable_outside_injection_context
      [of "Some \<lparr>destroyRef = None, injector = None, manualCleanup = Some False, equal = None\<rparr>" 0 "''initialValue''"]
    bindable_outside_injection_context
      [of "Some \<lparr>destroyRef = Some 1, injector = None, manualCleanup = None, equal = None\<rparr>" 0 "''initialValue''"]
    bindable_outside_injection_context
      [of "Some \<lparr>destroyRef = None, injector = Some (Injector (Some 1)), manualCleanup = None, equal = None\<rparr>" 0 "''initialValue''"]
    bindable_outside_injection_context
      [of "Some \<lparr>destroyRef = None, injector = None, manualCleanup = Some True, equal = None\<rparr>" 0 "''initialValue''"]
  by (simp add: opt_manualCleanup_def opt_destroyRef_def opt_injector_def)

section \<open>bindTo: when it throws\<close>

text \<open>
  C1. The claim that \<open>bindTo\<close> with a signal source does not fail on a bindable signal
  constructed with a \<open>destroyRef\<close> does not hold: supplying the \<open>destroyRef\<close> leaves the
  captured \<open>injector\<close> undefined, and the signal branch throws without an injector.
  First the call of the claim, evaluated: construction in an injection context with
  \<open>{ destroyRef }\<close>, then \<open>bindTo(signal('newValue'))\<close>.
\<close>

theorem bindTo_signal_with_destroyRef_counterexample:
  "bindable (Some (Injector (Some 7))) 0 ''initialValue''
       (Some \<lparr>destroyRef = Some 7, injector = None, manualCleanup = None, equal = None\<rparr>)
     = Inr \<lparr> self = 0, bindableSignal = ''initialValue'',
             cl_options = Some \<lparr>destroyRef = Some 7, injector = None, manualCleanup = None, equal = None\<rparr>,
             cl_injector = None, bound = False, installed_effect = None,
             subscription = None, destroyed = [], relayed = [] \<rparr>
   \<and> bindTo False (SignalSrc 1 ''newValue'')
        \<lparr> self = 0, bindableSignal = ''initialValue'',
          cl_options = Some \<lparr>destroyRef = Some 7, injector = None, manualCleanup = None, equal = None\<rparr>,
          cl_injector = None, bound = False, installed_effect = None,
          subscription = None, destroyed = [], relayed = [] \<rparr>
     = (Inl SignalWithoutInjector,
        \<lparr> self = 0, bindableSignal = ''initialValue'',
          cl_options = Some \<lparr>destroyRef = Some 7, injector = None, manualCleanup = None, equal = None\<rparr>,
          cl_injector = None, bound = False, installed_effect = None,
          subscription = None, destroyed = [], relayed = [] \<rparr>)"
  by (simp add: eval_defs)

text \<open>
  C1, as amended. On a bindable signal constructed with a \<open>destroyRef\<close> (or with
  \<open>manualCleanup: true\<close>), at any later moment, \<open>bindTo\<close> with a signal source throws
  and changes nothing: in a reactive context for that reason, on a bound signal because
  it is bound, and otherwise for the missing injector. \<open>bindTo\<close> with a signal source
  can succeed only outside a reactive context, on a signal not yet bound that was
  constructed with neither a \<open>destroyRef\<close> nor \<open>manualCleanup: true\<close>.
\<close>

theorem bindTo_signal_needs_injector:
  assumes "bindable ambient r v0 opts = Inr w0"
  shows "(opt_destroyRef opts \<noteq> None \<or> opt_manualCleanup opts = Some True \<longrightarrow>
            bindTo ctx (SignalSrc sid x) (run evs w0)
              = (Inl (if ctx then InReactiveContext
                      else if bound (run evs w0) then AlreadyBound
                      else SignalWithoutInjector),
                 run evs w0))
         \<and> (\<not> isl (fst (bindTo ctx (SignalSrc sid x) (run evs w0))) \<longrightarrow>
              \<not> ctx \<and> \<not> bound (run evs w0)
              \<and> opt_destroyRef opts = None \<and> opt_manualCleanup opts \<noteq> Some True)"
proof -
  have "cl_injector (run evs w0) = None \<longleftrightarrow>
          opt_destroyRef opts \<noteq> None \<or> opt_manualCleanup opts = Some True"
    using bindable_captured(3) [OF assms] by (simp add: run_frame)
  then show ?thesis
    by (auto simp add: bindTo_def Let_def split: option.splits)
qed

theorem bindTo_signal_needs_injector_witness:
  "(\<exists>w0. bindable (Some (Injector (Some 7))) 0 ''initialValue''
            (Some \<lparr>destroyRef = Some 7, injector = None, manualCleanup = None, equal = None\<rparr>)
          = Inr w0
        \<and> bindTo False (SignalSrc 1 ''newValue'') w0 = (Inl SignalWithoutInjector, w0)
        \<and> bindTo False (SignalSrc 1 ''newValue'') (run [Destroy 7, Tick] w0)
            = (Inl SignalWithoutInjector, run [Destroy 7, Tick] w0))
   \<and> (\<exists>w0. bindable None 0 ''initialValue''
            (Some \<lparr>destroyRef = None, injector = Some (Injector (Some 7)), manualCleanup = None,
                   equal = None\<rparr>)
          = Inr w0
        \<and> fst (bindTo False (SignalSrc 1 ''newValue'') w0) = Inr 0
        \<and> \<not> bound w0)"
proof -
  let ?o1 = "Some \<lparr>destroyRef = None, injector = Some (Injector (Some 7)), manualCleanup = None,
                    equal = None\<rparr>"
  let ?o2 = "Some \<lparr>destroyRef = Some 7, injector = None, manualCleanup = None, equal = None\<rparr>"
  obtain w1 :: "string world" where b1: "bindable None 0 ''initialValue'' ?o1 = Inr w1"
    by (simp add: eval_defs)
  obtain w2 :: "string world"
    where b2: "bindable (Some (Injector (Some 7))) 0 ''initialValue'' ?o2 = Inr w2"
    by (simp add: eval_defs)
  have ok: "fst (bindTo False (SignalSrc 1 ''newValue'') w1) = Inr 0"
    using b1 by (auto simp add: eval_defs)
  then have "\<not> isl (fst (bindTo False (SignalSrc 1 ''newValue'') (run [] w1)))" by simp
  then have "\<not> bound w1"
    using bindTo_signal_needs_injector
            [OF b1, where ctx = False and sid = 1 and x = "''newValue''" and evs = "[]"]
    by simp
  moreover have "\<not> bound w2" using b2 by (simp add: bindable_fresh)
  then have "\<not> bound (run [Destroy 7, Tick] w2)"
    by (simp add: onDestroy_def tick_frame)
  then have "bindTo False (SignalSrc 1 ''newValue'') (run [Destroy 7, Tick] w2)
            = (Inl SignalWithoutInjector, run [Destroy 7, Tick] w2)"
    using bindTo_signal_needs_injector
            [OF b2, where ctx = False and sid = 1 and x = "''newValue''"
               and evs = "[Destroy 7, Tick]"]
    by (simp add: opt_destroyRef_def)
  moreover have "bindTo False (SignalSrc 1 ''newValue'') w2 = (Inl SignalWithoutInjector, w2)"
    using bindTo_signal_needs_injector
            [OF b2, where ctx = False and sid = 1 and x = "''newValue''" and evs = "[]"]
      \<open>\<not> bound w2\<close>
    by (simp add: opt_destroyRef_def)
  ultimately show ?thesis using b1 b2 ok by blast
qed

text \<open>
  C6. On a bindable signal constructed with \<open>manualCleanup: true\<close>, at any later moment,
  \<open>bindTo\<close> with a signal source throws and leaves the state as it was (the value
  included), and no effect is ever created.
\<close>

theorem manualCleanup_rejects_signal:
  assumes "bindable ambient r v opts = Inr w0"
    and "opt_manualCleanup opts = Some True"
  shows "(\<exists>e. bindTo ctx (SignalSrc sid x) (run evs w0) = (Inl e, run evs w0))
         \<and> installed_effect (run evs w0) = None"
proof -
  have inj: "cl_injector w0 = None" and eff: "installed_effect w0 = None"
    using assms by (simp_all add: bindable_fresh)
  then have "cl_injector (run evs w0) = None" by (simp add: run_frame)
  then have "\<exists>e. bindTo ctx (SignalSrc sid x) (run evs w0) = (Inl e, run evs w0)"
    by (simp add: bindTo_def)
  moreover have "installed_effect (run evs w0) = None"
    using inj eff by (rule run_no_injector)
  ultimately show ?thesis by simp
qed

theorem manualCleanup_rejects_signal_witness:
  "\<exists>w0. bindable None 0 ''init''
           (Some \<lparr>destroyRef = None, injector = None, manualCleanup = Some True, equal = None\<rparr>) = Inr w0
     \<and> bindTo False (SignalSrc 1 ''x'') w0 = (Inl SignalWithoutInjector, w0)
     \<and> bindableSignal (snd (bindTo False (SignalSrc 1 ''x'') w0)) = ''init''
     \<and> installed_effect (snd (bindTo False (SignalSrc 1 ''x'') w0)) = None"
proof -
  let ?o = "Some \<lparr>destroyRef = None, injector = None, manualCleanup = Some True, equal = None\<rparr>"
  obtain w0 :: "string world" where b: "bindable None 0 ''init'' ?o = Inr w0"
    by (simp add: eval_defs)
  have "opt_manualCleanup ?o = Some True" by (simp add: opt_manualCleanup_def)
  from manualCleanup_rejects_signal
         [OF b this, where ctx = False and sid = 1 and x = "''x''" and evs = "[]"]
  have "\<exists>e. bindTo False (SignalSrc 1 ''x'') w0 = (Inl e, w0)" and "installed_effect w0 = None"
    by simp_all
  moreover have "fst (bindTo False (SignalSrc 1 ''x'') w0) = Inl SignalWithoutInjector"
    using b by (auto simp add: eval_defs)
  moreover have "bindableSignal w0 = ''init''" using b by (simp add: bindable_fresh)
  ultimately show ?thesis using b by auto
qed

text \<open>
  C9. A call of \<open>bindTo\<close> that throws leaves the state exactly as it found it: \<open>bound\<close>
  keeps its value (so an unbound signal stays unbound), the value of the signal is
  untouched, and neither an effect nor a subscription is created.
\<close>

theorem bindTo_failure_is_atomic:
  assumes "bindTo ctx src w = (Inl e, w')"
  shows "w' = w \<and> bound w' = bound w \<and> bindableSignal w' = bindableSignal w
         \<and> installed_effect w' = installed_effect w \<and> subscription w' = subscription w"
  using assms bindTo_fails_unchanged [of ctx src w e] by simp

theorem bindTo_failure_is_atomic_witness:
  "\<exists>w0. bindable (Some (Injector None)) 0 ''init'' None = Inr w0
     \<and> fst (bindTo False (ObservableSrc 1 [Next ''a'']) w0) = Inl NoDestroyRef
     \<and> snd (bindTo False (ObservableSrc 1 [Next ''a'']) w0) = w0
     \<and> \<not> bound (snd (bindTo False (ObservableSrc 1 [Next ''a'']) w0))
     \<and> subscription (snd (bindTo False (ObservableSrc 1 [Next ''a'']) w0)) = None"
proof -
  obtain w0 :: "string world"
    where b: "bindable (Some (Injector None)) 0 ''init'' None = Inr w0"
    by (simp add: eval_defs)
  have f: "bindTo False (ObservableSrc 1 [Next ''a'']) w0
             = (Inl NoDestroyRef, snd (bindTo False (ObservableSrc 1 [Next ''a'']) w0))"
    using b by (auto simp add: eval_defs)
  have "\<not> bound w0" and "subscription w0 = None" using b by (simp_all add: bindable_fresh)
  then show ?thesis using bindTo_failure_is_atomic [OF f] f b by auto
qed

section \<open>bindTo: binding once\<close>

text \<open>
  C2. \<open>bound\<close> is false after construction; an event changes it only from false to
  true, and only a call of \<open>bindTo\<close> that succeeds does so; a call that succeeds found
  it false and leaves it true, it stays true whatever happens afterwards, and every
  later call of \<open>bindTo\<close> throws, whatever the source, the options and the context.
\<close>

theorem bindTo_once:
  assumes "bindable ambient r v opts = Inr w0"
  shows "\<not> bound w0
     \<and> (bound (step e w) \<longleftrightarrow>
          bound w \<or> (case e of CallBindTo ctx src \<Rightarrow> \<not> isl (fst (bindTo ctx src w)) | _ \<Rightarrow> False))
     \<and> (bindTo ctx src (run evs0 w0) = (Inr res, w1)
          \<longrightarrow> \<not> bound (run evs0 w0) \<and> bound w1 \<and> bound (run evs w1)
              \<and> fst (bindTo ctx' src' (run evs w1))
                   = Inl (if ctx' then InReactiveContext else AlreadyBound))"
proof -
  have "\<not> bound w0" using assms by (simp add: bindable_fresh)
  moreover have "bound (step e w) \<longleftrightarrow>
          bound w \<or> (case e of CallBindTo ctx src \<Rightarrow> \<not> isl (fst (bindTo ctx src w)) | _ \<Rightarrow> False)"
    by (rule step_bound)
  moreover have "\<not> bound (run evs0 w0) \<and> bound w1 \<and> bound (run evs w1)
              \<and> fst (bindTo ctx' src' (run evs w1))
                   = Inl (if ctx' then InReactiveContext else AlreadyBound)"
    if ok: "bindTo ctx src (run evs0 w0) = (Inr res, w1)"
  proof -
    have "\<not> isl (fst (bindTo ctx src (run evs0 w0)))" using ok by simp
    then have 1: "\<not> bound (run evs0 w0)" by (simp add: bindTo_succeeds_iff)
    have 2: "bound w1" using bindTo_bound [of ctx src "run evs0 w0"] ok by simp
    then have 3: "bound (run evs w1)" by (rule run_bound)
    then have "fst (bindTo ctx' src' (run evs w1))
                   = Inl (if ctx' then InReactiveContext else AlreadyBound)"
      by (simp add: bindTo_def)
    with 1 2 3 show ?thesis by simp
  qed
  ultimately show ?thesis by blast
qed

theorem bindTo_once_witness:
  "\<exists>w0 w1. bindable (Some (Injector (Some 7))) 0 ''initialValue'' None = Inr w0
     \<and> bindTo False (ObservableSrc 1 [Next ''newValue'']) w0 = (Inr 0, w1)
     \<and> \<not> bound w0 \<and> bound w1
     \<and> bound (run [Tick, Destroy 7, CallSet ''x''] w1)
     \<and> fst (bindTo False (SignalSrc 2 ''y'') (run [Tick, Destroy 7, CallSet ''x''] w1))
          = Inl AlreadyBound
     \<and> fst (bindTo False (ObservableSrc 3 []) (run [Tick, Destroy 7, CallSet ''x''] w1))
          = Inl AlreadyBound"
proof -
  obtain w0 :: "string world"
    where b: "bindable (Some (Injector (Some 7))) 0 ''initialValue'' None = Inr w0"
    by (simp add: eval_defs)
  define w1 where "w1 = snd (bindTo False (ObservableSrc 1 [Next ''newValue'']) w0)"
  have t: "bindTo False (ObservableSrc 1 [Next ''newValue'']) (run [] w0) = (Inr 0, w1)"
    using b unfolding w1_def by (auto simp add: eval_defs)
  note th = bindTo_once [OF b, where ctx = False and src = "ObservableSrc 1 [Next ''newValue'']"
      and ?evs0.0 = "[]" and res = 0 and ?w1.0 = w1
      and evs = "[Tick, Destroy 7, CallSet ''x'']" and ctx' = False]
  have "\<not> bound w0" using th by blast
  moreover have "bound w1 \<and> bound (run [Tick, Destroy 7, CallSet ''x''] w1)"
    using th t by blast
  moreover have "fst (bindTo False (SignalSrc 2 ''y'') (run [Tick, Destroy 7, CallSet ''x''] w1))
          = Inl AlreadyBound"
    using th [where src' = "SignalSrc 2 ''y''" and w = w0] t by simp
  moreover have "fst (bindTo False (ObservableSrc 3 []) (run [Tick, Destroy 7, CallSet ''x''] w1))
          = Inl AlreadyBound"
    using th [where src' = "ObservableSrc 3 []" and w = w0] t by simp
  ultimately show ?thesis using b t by auto
qed

text \<open>
  C10. The claim that \<open>set(v)\<close> after a successful \<open>bindTo\<close> makes \<open>v\<close> the value
  does not hold for every bindable signal: \<open>bindable\<close> hands the \<open>equal\<close> of its options
  to \<open>signal\<close>, and \<open>set\<close> keeps the current value when \<open>equal\<close> finds the new one
  equal to it. First such a signal, constructed with \<open>equal: () => true\<close>, bound, and
  then set.
\<close>

theorem bindTo_set_with_equal_counterexample:
  "bindable (Some (Injector (Some 7))) 5 ''initialValue''
       (Some \<lparr>destroyRef = None, injector = None, manualCleanup = None,
              equal = Some always_equal\<rparr>)
     = Inr \<lparr> self = 5, bindableSignal = ''initialValue'',
             cl_options = Some \<lparr>destroyRef = None, injector = None, manualCleanup = None,
                                equal = Some always_equal\<rparr>,
             cl_injector = Some (Injector (Some 7)), bound = False, installed_effect = None,
             subscription = None, destroyed = [], relayed = [] \<rparr>
   \<and> fst (bindTo False (ObservableSrc 1 [])
        \<lparr> self = 5, bindableSignal = ''initialValue'',
          cl_options = Some \<lparr>destroyRef = None, injector = None, manualCleanup = None,
                             equal = Some always_equal\<rparr>,
          cl_injector = Some (Injector (Some 7)), bound = False, installed_effect = None,
          subscription = None, destroyed = [], relayed = [] \<rparr>) = Inr 5
   \<and> bindableSignal (step (CallSet ''mine'') (snd (bindTo False (ObservableSrc 1 [])
        \<lparr> self = 5, bindableSignal = ''initialValue'',
          cl_options = Some \<lparr>destroyRef = None, injector = None, manualCleanup = None,
                             equal = Some always_equal\<rparr>,
          cl_injector = Some (Injector (Some 7)), bound = False, installed_effect = None,
          subscription = None, destroyed = [], relayed = [] \<rparr>))) = ''initialValue''"
  by (simp add: eval_defs)

text \<open>
  C10, as amended. A call of \<open>bindTo\<close> that succeeds returns the object that
  \<open>bindable\<close> created and returned. Binding does not restrict the signal's own \<open>set\<close>:
  at any later moment \<open>set(v)\<close> changes nothing but the value, which becomes \<open>v\<close>
  unless the \<open>equal\<close> given at construction finds \<open>v\<close> equal to the current value
  (with the default equality it is \<open>v\<close>); the outcome is the one \<open>set(v)\<close> has on the
  same current value at any other moment of the signal's life, and \<open>bound\<close> stays true.
\<close>

theorem bindTo_returns_the_signal:
  assumes "bindable ambient r v0 opts = Inr w0"
    and "bindTo ctx src (run evs0 w0) = (Inr res, w1)"
  shows "res = r \<and> self w1 = r
         \<and> step (CallSet v) (run evs w1)
             = (run evs w1)\<lparr>bindableSignal :=
                 set_result (equality_of opts) (bindableSignal (run evs w1)) v\<rparr>
         \<and> (opt_equal opts = None \<longrightarrow> bindableSignal (step (CallSet v) (run evs w1)) = v)
         \<and> (bindableSignal (run evs w1) = bindableSignal (run evs' w0) \<longrightarrow>
               bindableSignal (step (CallSet v) (run evs w1))
                 = bindableSignal (step (CallSet v) (run evs' w0)))
         \<and> bound (step (CallSet v) (run evs w1))"
proof -
  have "self (run evs0 w0) = r" using assms(1) by (simp add: run_frame bindable_fresh)
  moreover have "self (snd (bindTo ctx src (run evs0 w0))) = self (run evs0 w0)"
    by (rule bindTo_frame)
  moreover have "res = self w1"
    using assms(2)
    by (auto simp add: bindTo_def Let_def split: if_splits source.splits option.splits)
  ultimately have same: "res = r \<and> self w1 = r" using assms(2) by simp
  have "cl_options (snd (bindTo ctx src (run evs0 w0))) = cl_options (run evs0 w0)"
    by (rule bindTo_frame)
  then have "cl_options w1 = opts"
    using assms by (simp add: run_frame bindable_fresh)
  then have eq1: "signal_equal (run evs w1) = equality_of opts"
    by (simp add: signal_equal_eq run_frame)
  have eq0: "signal_equal (run evs' w0) = equality_of opts"
    using assms(1) by (simp add: signal_equal_eq run_frame bindable_fresh)
  have "bound w1" using bindTo_bound [of ctx src "run evs0 w0"] assms(2) by simp
  then have "bound (run evs w1)" by (rule run_bound)
  then show ?thesis
    using same eq0 eq1
    by (simp add: signal_set_def set_result_def equality_of_def)
qed

theorem bindTo_returns_the_signal_witness:
  "\<exists>w0 w1. bindable (Some (Injector (Some 7))) 5 ''initialValue'' None = Inr w0
     \<and> bindTo False (SignalSrc 1 ''newValue'') w0 = (Inr 5, w1)
     \<and> self w1 = 5
     \<and> bindableSignal (run [Tick] w1) = ''newValue''
     \<and> bindableSignal (step (CallSet ''mine'') (run [Tick] w1)) = ''mine''
     \<and> bound (step (CallSet ''mine'') (run [Tick] w1))"
proof -
  obtain w0 :: "string world"
    where b: "bindable (Some (Injector (Some 7))) 5 ''initialValue'' None = Inr w0"
    by (simp add: eval_defs)
  define w1 where "w1 = snd (bindTo False (SignalSrc 1 ''newValue'') w0)"
  have t: "bindTo False (SignalSrc 1 ''newValue'') (run [] w0) = (Inr 5, w1)"
    using b unfolding w1_def by (auto simp add: eval_defs)
  have v: "bindableSignal (run [Tick] w1) = ''newValue''"
    using b unfolding w1_def by (auto simp add: eval_defs)
  note th = bindTo_returns_the_signal [OF b t, where v = "''mine''" and evs = "[Tick]"]
  have "opt_equal (None :: string options option) = None" by (simp add: opt_equal_def)
  then have "self w1 = 5"
    and "bindableSignal (step (CallSet ''mine'') (run [Tick] w1)) = ''mine''"
    and "bound (step (CallSet ''mine'') (run [Tick] w1))"
    using th by blast+
  then show ?thesis using b t v by auto
qed

section \<open>bindTo: what reaches the signal, and when\<close>

text \<open>
  C3. When \<open>bindTo\<close> returns, the signal still holds the value it had before the call,
  whatever the source delivers synchronously on subscription, and nothing has been
  written by the binding. This stays so until the next scheduling turn: no event other
  than a turn (and the owner's own \<open>set\<close>) changes the value.
\<close>

theorem bindTo_defers_first_write:
  assumes "bindTo ctx src w = (Inr res, w1)"
    and "Tick \<notin> set evs"
    and "\<forall>e\<in>set evs. \<not> is_CallSet e"
  shows "bindableSignal w1 = bindableSignal w \<and> relayed w1 = relayed w
         \<and> bindableSignal (run evs w1) = bindableSignal w \<and> relayed (run evs w1) = relayed w"
proof -
  have "bindableSignal (snd (bindTo ctx src w)) = bindableSignal w"
    and "relayed (snd (bindTo ctx src w)) = relayed w"
    by (rule bindTo_frame)+
  then have "bindableSignal w1 = bindableSignal w" and "relayed w1 = relayed w"
    using assms(1) by simp_all
  then show ?thesis using run_no_tick [OF assms(2), of w1] assms(3) by simp
qed

theorem bindTo_defers_first_write_witness:
  "\<exists>w0 w1. bindable (Some (Injector (Some 7))) 0 ''initialValue'' None = Inr w0
     \<and> bindTo False (ObservableSrc 1 [Next ''newValue'']) w0 = (Inr 0, w1)
     \<and> bindableSignal w1 = ''initialValue''
     \<and> bindableSignal (run [SourceNotify 1 (Next ''anotherValue'')] w1) = ''initialValue''
     \<and> relayed (run [SourceNotify 1 (Next ''anotherValue'')] w1) = []
     \<and> bindableSignal (run [SourceNotify 1 (Next ''anotherValue''), Tick] w1) = ''anotherValue''"
proof -
  obtain w0 :: "string world"
    where b: "bindable (Some (Injector (Some 7))) 0 ''initialValue'' None = Inr w0"
    by (simp add: eval_defs)
  define w1 where "w1 = snd (bindTo False (ObservableSrc 1 [Next ''newValue'']) w0)"
  have t: "bindTo False (ObservableSrc 1 [Next ''newValue'']) w0 = (Inr 0, w1)"
    using b unfolding w1_def by (auto simp add: eval_defs)
  have v0: "bindableSignal w0 = ''initialValue''" and r0: "relayed w0 = []"
    using b by (simp_all add: bindable_fresh)
  have "bindableSignal w1 = ''initialValue''
     \<and> bindableSignal (run [SourceNotify 1 (Next ''anotherValue'')] w1) = ''initialValue''
     \<and> relayed (run [SourceNotify 1 (Next ''anotherValue'')] w1) = []"
    using bindTo_defers_first_write
            [OF t, where evs = "[SourceNotify 1 (Next ''anotherValue'')]"] v0 r0
    by simp
  moreover have "bindableSignal (run [SourceNotify 1 (Next ''anotherValue''), Tick] w1)
                   = ''anotherValue''"
    using b unfolding w1_def by (auto simp add: eval_defs)
  ultimately show ?thesis using b t by auto
qed




text \<open>
  C5. Take a bindable signal bound with an owning scope: the \<open>destroyRef\<close> of the options
  or, without one, the \<open>DestroyRef\<close> of the captured injector. Once the \<open>onDestroy\<close>
  callbacks of that scope have run, the binding writes nothing more: whatever the
  source (observable or signal) emits and however many turns pass, the value stays what
  it was at the teardown, as long as the owner does not call \<open>set\<close>.
\<close>

theorem teardown_stops_propagation:
  assumes "bindable ambient r v0 opts = Inr w0"
    and "bindTo ctx src (run evs0 w0) = (Inr res, w1)"
    and "resolved_destroyRef w0 = Some d"
    and "\<forall>e\<in>set evs2. \<not> is_CallSet e"
  shows "bindableSignal (run evs2 (step (Destroy d) (run evs1 w1))) = bindableSignal (run evs1 w1)
         \<and> relayed (run evs2 (step (Destroy d) (run evs1 w1))) = relayed (run evs1 w1)"
proof -
  let ?w = "run evs0 w0"
  have "settled ?w" using assms(1) by (simp add: bindable_settled run_settled)
  moreover have "cl_options ?w = opts" and "cl_injector ?w = cl_injector w0"
    using assms(1) by (simp_all add: run_frame bindable_fresh)
  moreover have "resolved_destroyRef ?w = Some d"
    using assms(3) by (simp add: run_resolved)
  moreover note bindable_captured(1,2) [OF assms(1)]
  ultimately have "scoped d w1"
    using bindTo_scoped [of ?w ctx src res w1 d] assms(2) by simp
  then have "scoped d (run evs1 w1)" by (rule run_scoped)
  then have stop: "stopped_for_good (step (Destroy d) (run evs1 w1))"
    by (simp add: onDestroy_stops)
  have "bindableSignal (step (Destroy d) (run evs1 w1)) = bindableSignal (run evs1 w1)"
    and "relayed (step (Destroy d) (run evs1 w1)) = relayed (run evs1 w1)"
    by (simp_all add: onDestroy_def)
  then show ?thesis using run_stopped [OF stop, of evs2] assms(4) by simp
qed

theorem teardown_stops_propagation_witness:
  "(\<exists>w0 w1. bindable None 0 ''initialValue''
              (Some \<lparr>destroyRef = Some 7, injector = None, manualCleanup = None, equal = None\<rparr>) = Inr w0
      \<and> bindTo False (ObservableSrc 1 [Next ''newValue'']) w0 = (Inr 0, w1)
      \<and> resolved_destroyRef w0 = Some 7
      \<and> bindableSignal (run [Tick] w1) = ''newValue''
      \<and> bindableSignal
           (run [SourceNotify 1 (Next ''anotherValue''), Tick] (step (Destroy 7) (run [Tick] w1)))
          = ''newValue'')
   \<and> (\<exists>w0 w1. bindable None 0 ''initialValue''
              (Some \<lparr>destroyRef = None, injector = Some (Injector (Some 7)), manualCleanup = None, equal = None\<rparr>)
            = Inr w0
      \<and> bindTo False (SignalSrc 2 ''newValue'') w0 = (Inr 0, w1)
      \<and> resolved_destroyRef w0 = Some 7
      \<and> bindableSignal (run [Tick] w1) = ''newValue''
      \<and> bindableSignal
           (run [SourceSet 2 ''anotherValue'', Tick] (step (Destroy 7) (run [Tick] w1)))
          = ''newValue'')"
proof -
  let ?o = "Some \<lparr>destroyRef = Some 7, injector = None, manualCleanup = None, equal = None\<rparr>"
  obtain w0 :: "string world" where b: "bindable None 0 ''initialValue'' ?o = Inr w0"
    by (simp add: eval_defs)
  have "cl_options w0 = ?o" using b by (simp add: bindable_fresh)
  then have s: "resolved_destroyRef w0 = Some 7"
    by (simp add: resolved_destroyRef_def opt_destroyRef_def)
  define w1 where "w1 = snd (bindTo False (ObservableSrc 1 [Next ''newValue'']) w0)"
  have t: "bindTo False (ObservableSrc 1 [Next ''newValue'']) (run [] w0) = (Inr 0, w1)"
    using b unfolding w1_def by (auto simp add: eval_defs)
  have v: "bindableSignal (run [Tick] w1) = ''newValue''"
    using b unfolding w1_def by (auto simp add: eval_defs)
  from teardown_stops_propagation
         [OF b t s, where ?evs2.0 = "[SourceNotify 1 (Next ''anotherValue''), Tick]"
            and ?evs1.0 = "[Tick]"] v b t s
  have first: "\<exists>w0 w1. bindable None 0 ''initialValue'' ?o = Inr w0
      \<and> bindTo False (ObservableSrc 1 [Next ''newValue'']) w0 = (Inr 0, w1)
      \<and> resolved_destroyRef w0 = Some 7
      \<and> bindableSignal (run [Tick] w1) = ''newValue''
      \<and> bindableSignal
           (run [SourceNotify 1 (Next ''anotherValue''), Tick] (step (Destroy 7) (run [Tick] w1)))
          = ''newValue''"
    by auto
  let ?p = "Some \<lparr>destroyRef = None, injector = Some (Injector (Some 7)), manualCleanup = None, equal = None\<rparr>"
  obtain u0 :: "string world" where b': "bindable None 0 ''initialValue'' ?p = Inr u0"
    by (simp add: eval_defs)
  have "cl_options u0 = ?p" and "cl_injector u0 = Some (Injector (Some 7))"
    using b' by (simp_all add: bindable_fresh opt_destroyRef_def opt_manualCleanup_def
                   opt_injector_def)
  then have s': "resolved_destroyRef u0 = Some 7"
    by (simp add: resolved_destroyRef_def opt_destroyRef_def)
  define u1 where "u1 = snd (bindTo False (SignalSrc 2 ''newValue'') u0)"
  have t': "bindTo False (SignalSrc 2 ''newValue'') (run [] u0) = (Inr 0, u1)"
    using b' unfolding u1_def by (auto simp add: eval_defs)
  have v': "bindableSignal (run [Tick] u1) = ''newValue''"
    using b' unfolding u1_def by (auto simp add: eval_defs)
  from teardown_stops_propagation
         [OF b' t' s', where ?evs2.0 = "[SourceSet 2 ''anotherValue'', Tick]"
            and ?evs1.0 = "[Tick]"] v' b' t' s'
  have "\<exists>w0 w1. bindable None 0 ''initialValue'' ?p = Inr w0
      \<and> bindTo False (SignalSrc 2 ''newValue'') w0 = (Inr 0, w1)
      \<and> resolved_destroyRef w0 = Some 7
      \<and> bindableSignal (run [Tick] w1) = ''newValue''
      \<and> bindableSignal
           (run [SourceSet 2 ''anotherValue'', Tick] (step (Destroy 7) (run [Tick] w1)))
          = ''newValue''"
    by auto
  with first show ?thesis by blast
qed

end
